theory Spec2Isabelle
  imports Complex_Main "HOL-Library.Multiset"
begin

section \<open>Pic2Product: catalog index, cache protocol and ranking\<close>

text \<open>
  A shallow embedding of \<^verbatim>\<open>mvp_reco.py\<close> and \<^verbatim>\<open>api.py\<close>. Python exceptions are values of
  the type \<open>error\<close>; the module-level \<^verbatim>\<open>state\<close> object and the files the handlers read and
  write are passed explicitly. The collaborators the code calls but does not define (the
  CLIP encoder, the YOLO detector, PIL, pathlib, \<^verbatim>\<open>np.argsort\<close>) are fields of an environment
  record. A float is represented by the real number it denotes (NaN and the infinities
  excluded): comparison and negation of floats are then those of the reals. Float
  arithmetic rounds, so the two places that compute with floats (one entry of \<^verbatim>\<open>cos_sim\<close>,
  one entry of the fused score) are fields of the environment as well.
\<close>

subsection \<open>Errors\<close>

datatype error =
    CsvHeaderMissing      \<comment> \<open>\<^verbatim>\<open>RuntimeError\<close>: the CSV has no header line\<close>
  | CsvColumnsMissing     \<comment> \<open>\<^verbatim>\<open>RuntimeError\<close>: a required column is absent\<close>
  | CatalogEmpty          \<comment> \<open>\<^verbatim>\<open>RuntimeError("Catalog is empty. ...")\<close>\<close>
  | CatalogNotReady       \<comment> \<open>the 400 response of \<^verbatim>\<open>/recommend\<close>\<close>
  | IOError               \<comment> \<open>a file could not be opened or decoded\<close>
  | ValueError            \<comment> \<open>numpy: shapes do not fit\<close>
  | IndexError            \<comment> \<open>list index out of range\<close>
  | TypeError             \<comment> \<open>subscript of \<^verbatim>\<open>None\<close>\<close>
  | DetectionFailure
  | EncodingFailure

subsection \<open>Catalog rows and embeddings\<close>

type_synonym vec = "real list"

text \<open>
  The matrix that \<^verbatim>\<open>load_catalog\<close> stacks is the list of its rows; \<^verbatim>\<open>np.vstack\<close> returns at
  least one row, and the width of the matrix is the length of its first row.
\<close>

type_synonym matrix = "real list list"

text \<open>
  An array as the cache archive can hold it and the state can carry it: \<open>Array1 v\<close> is a
  one-dimensional array, \<open>Array2 w rows\<close> a two-dimensional one of shape
  \<open>(length rows, w)\<close>, every row of length \<open>w\<close>. \<open>array2\<close> is the array that \<^verbatim>\<open>np.vstack\<close>
  returns for a list of rows.
\<close>

datatype ndarray = Array1 vec | Array2 nat matrix

definition width_of :: "matrix \<Rightarrow> nat" where
  "width_of m = (case m of [] \<Rightarrow> 0 | r # _ \<Rightarrow> length r)"

definition array2 :: "matrix \<Rightarrow> ndarray" where
  "array2 m = Array2 (width_of m) m"

record catalog_row =
  sku_id :: string
  title :: string
  brand :: string
  image_path :: string
  row_text :: string

text \<open>One row of \<^verbatim>\<open>csv.DictReader\<close>: a short line leaves a column \<^verbatim>\<open>None\<close>.\<close>

record csv_row =
  c_sku_id :: "string option"
  c_title :: "string option"
  c_brand :: "string option"
  c_image_path :: "string option"

record csv_file =
  fieldnames :: "string list"
  rows_csv :: "csv_row list"

record catalog =
  cat_rows :: "catalog_row list"
  cat_img_embs :: matrix
  cat_txt_embs :: matrix

text \<open>\<^verbatim>\<open>str(x)\<close> on a CSV cell.\<close>

definition py_str :: "string option \<Rightarrow> string" where
  "py_str v = (case v of None \<Rightarrow> ''None'' | Some s \<Rightarrow> s)"

text \<open>
  \<^verbatim>\<open>str.strip()\<close>. A character of a string is a code point below 256; the white space of
  Python among these is the ASCII white space, the separators \<open>0x1C\<close> to \<open>0x1F\<close>, the next
  line control \<open>0x85\<close> and the no-break space \<open>0xA0\<close>.
\<close>

definition py_isspace :: "char \<Rightarrow> bool" where
  "py_isspace c = (c \<in> set [CHR '' '', CHR 0x09, CHR 0x0A, CHR 0x0B, CHR 0x0C, CHR 0x0D,
      CHR 0x1C, CHR 0x1D, CHR 0x1E, CHR 0x1F, CHR 0x85, CHR 0xA0])"

definition py_strip :: "string \<Rightarrow> string" where
  "py_strip s = rev (dropWhile py_isspace (rev (dropWhile py_isspace s)))"

subsection \<open>Detections and recommendations\<close>

record 'img detected_instance =
  bbox :: "int list"
  cls :: string
  conf :: real
  crop :: 'img

record reco =
  r_sku_id :: string
  r_title :: string
  r_brand :: string
  r_image_url :: string
  r_score :: real

record inst_result =
  res_bbox :: "int list"
  res_class :: string
  res_det_conf :: real
  top_k :: "reco list"
  top1 :: "reco option"

record response =
  image_url :: string
  vis_url :: "string option"
  instances :: "inst_result list"

subsection \<open>The environment\<close>

text \<open>
  \<open>read_csv\<close> is \<^verbatim>\<open>open\<close> followed by \<^verbatim>\<open>csv.DictReader\<close>; \<open>resolve\<close> is
  \<^verbatim>\<open>str(Path(csv_path).parent / img_path)\<close>; \<open>path_exists\<close> is \<^verbatim>\<open>Path.exists\<close>;
  \<open>open_image\<close> is \<^verbatim>\<open>Image.open(p).convert("RGB")\<close>; \<open>encode_image\<close> and \<open>encode_text\<close>
  are the methods of \<^verbatim>\<open>ClipEncoder\<close>. \<open>detect_instances\<close> is \<^verbatim>\<open>mvp_reco.detect_instances\<close> on
  the uploaded bytes (the detector's prediction and the cropping of its boxes), \<open>render\<close>
  the drawing of \<^verbatim>\<open>draw_and_save\<close>, \<open>stem\<close> is \<^verbatim>\<open>Path.stem\<close>, \<open>argsort\<close> is \<^verbatim>\<open>np.argsort\<close> with
  its default \<^verbatim>\<open>kind\<close>. \<open>can_write p\<close> says that the operating system lets the process create the
  file \<open>p\<close> (its directory exists, its name is one the file system takes): \<^verbatim>\<open>open(p, "wb")\<close>
  and \<^verbatim>\<open>img.save(p)\<close> raise otherwise. \<open>cos_row a b\<close> is the float value of
  \<^verbatim>\<open>(b @ a) / (norm(b) * norm(a) + 1e-8)\<close> for one row \<open>b\<close> of the bank, and \<open>fuse alpha s t\<close> the
  float value of \<^verbatim>\<open>alpha * s + (1 - alpha) * t\<close>.
\<close>

record 'img env =
  read_csv :: "string \<Rightarrow> error + csv_file"
  resolve :: "string \<Rightarrow> string \<Rightarrow> string"
  path_exists :: "string \<Rightarrow> bool"
  open_image :: "string \<Rightarrow> error + 'img"
  encode_image :: "'img \<Rightarrow> vec"
  encode_text :: "string \<Rightarrow> vec"
  detect_instances :: "string \<Rightarrow> error + 'img \<times> 'img detected_instance list"
  render :: "'img \<Rightarrow> inst_result list \<Rightarrow> string"
  stem :: "string \<Rightarrow> string"
  can_write :: "string list \<Rightarrow> bool"
  argsort :: "real list \<Rightarrow> nat list"
  cos_row :: "vec \<Rightarrow> vec \<Rightarrow> real"
  fuse :: "real \<Rightarrow> real \<Rightarrow> real \<Rightarrow> real"

subsection \<open>\<^verbatim>\<open>load_catalog\<close>\<close>

text \<open>
  \<^verbatim>\<open>np.vstack\<close> on a list of one-dimensional arrays: they must all have the same length.
\<close>

definition vstack :: "vec list \<Rightarrow> error + matrix" where
  "vstack vs = (case vs of
      [] \<Rightarrow> Inl ValueError
    | v # _ \<Rightarrow> if list_all (\<lambda>u. length u = length v) vs then Inr vs else Inl ValueError)"

definition required :: "string list" where
  "required = [''sku_id'', ''title'', ''brand'', ''image_path'']"

definition mk_row :: "'img env \<Rightarrow> string \<Rightarrow> csv_row \<Rightarrow> catalog_row" where
  "mk_row e csv_path row =
     \<lparr>sku_id = py_str (c_sku_id row),
      title = py_str (c_title row),
      brand = py_str (c_brand row),
      image_path = resolve e csv_path (py_str (c_image_path row)),
      row_text = py_strip (py_str (c_brand row) @ '' '' @ py_str (c_title row))\<rparr>"

text \<open>
  The loop over \<^verbatim>\<open>rows_csv\<close>, with the three lists it appends to (\<^verbatim>\<open>imgs\<close> and \<^verbatim>\<open>txts\<close>
  are never read and are left out).
\<close>

fun catalog_loop ::
  "'img env \<Rightarrow> string \<Rightarrow> csv_row list \<Rightarrow> vec list \<times> vec list \<times> catalog_row list
     \<Rightarrow> error + (vec list \<times> vec list \<times> catalog_row list)" where
  "catalog_loop e csv_path [] acc = Inr acc"
| "catalog_loop e csv_path (row # rest) (img_acc, txt_acc, rows) =
     (let p = resolve e csv_path (py_str (c_image_path row)) in
      if \<not> path_exists e p then catalog_loop e csv_path rest (img_acc, txt_acc, rows)
      else (case open_image e p of
          Inl err \<Rightarrow> Inl err
        | Inr pil \<Rightarrow>
            (let img_emb = encode_image e pil;
                 r = mk_row e csv_path row;
                 txt_emb = encode_text e (row_text r)
             in catalog_loop e csv_path rest
                  (img_acc @ [img_emb], txt_acc @ [txt_emb], rows @ [r]))))"

definition load_catalog :: "'img env \<Rightarrow> string \<Rightarrow> error + catalog" where
  "load_catalog e csv_path =
     (case read_csv e csv_path of
        Inl err \<Rightarrow> Inl err
      | Inr f \<Rightarrow>
          if fieldnames f = [] then Inl CsvHeaderMissing
          else if \<not> list_all (\<lambda>c. c \<in> set (fieldnames f)) required then Inl CsvColumnsMissing
          else (case catalog_loop e csv_path (rows_csv f) ([], [], []) of
              Inl err \<Rightarrow> Inl err
            | Inr (img_acc, txt_acc, rows) \<Rightarrow>
                if rows = [] then Inl CatalogEmpty
                else (case vstack img_acc of
                    Inl err \<Rightarrow> Inl err
                  | Inr im \<Rightarrow>
                      (case vstack txt_acc of
                         Inl err \<Rightarrow> Inl err
                       | Inr tx \<Rightarrow>
                           Inr \<lparr>cat_rows = rows, cat_img_embs = im, cat_txt_embs = tx\<rparr>))))"

definition resolvable :: "'img env \<Rightarrow> string \<Rightarrow> csv_row \<Rightarrow> bool" where
  "resolvable e csv_path row = path_exists e (resolve e csv_path (py_str (c_image_path row)))"

text \<open>
  Row \<open>r\<close> of the metadata, \<open>iv\<close> and \<open>tv\<close> belong together: \<open>iv\<close> is the embedding of the image
  at the row's path and \<open>tv\<close> the embedding of the row's text.
\<close>

definition row_embeds :: "'img env \<Rightarrow> catalog_row \<Rightarrow> vec \<Rightarrow> vec \<Rightarrow> bool" where
  "row_embeds e r iv tv =
     ((\<exists>pil. open_image e (image_path r) = Inr pil \<and> iv = encode_image e pil) \<and>
      tv = encode_text e (row_text r))"

subsection \<open>The in-memory state and the cache files\<close>

text \<open>The class \<^verbatim>\<open>State\<close> of \<^verbatim>\<open>api.py\<close> (the two model handles are in the environment).\<close>

record state =
  catalog_rows :: "catalog_row list"
  img_embs :: "ndarray option"
  txt_embs :: "ndarray option"
  embedding_dim :: "int option"
  catalog_path :: string

text \<open>
  A file of the cache directory: absent, present but rejected by its reader (\<^verbatim>\<open>np.load\<close>,
  \<^verbatim>\<open>json.load\<close>), or read as a value.
\<close>

datatype 'a cache_file = Missing | Corrupt | Parsed 'a

text \<open>
  The archive \<^verbatim>\<open>catalog_embeddings.npz\<close>: \<open>None\<close> where the key is not in the archive or its
  member cannot be read (\<^verbatim>\<open>npz["img_embs"]\<close> raises).
\<close>

record npz =
  npz_img_embs :: "ndarray option"
  npz_txt_embs :: "ndarray option"

text \<open>
  The manifest \<^verbatim>\<open>catalog_index.json\<close>. \<open>m_rows\<close> is \<open>None\<close> where \<^verbatim>\<open>idx["rows"]\<close> raises (the
  key is absent, or the document is not an object); a present value is a list of row
  objects. \<open>m_embedding_dim\<close> is \<open>None\<close> where the key is absent, \<open>DimInt n\<close> where \<^verbatim>\<open>int\<close>
  converts the value to \<open>n\<close>, \<open>DimNotInt\<close> where \<^verbatim>\<open>int\<close> raises on it (\<^verbatim>\<open>null\<close>, a list, a
  string that is no number).
\<close>

datatype json_dim = DimInt int | DimNotInt

record manifest =
  m_embedding_dim :: "json_dim option"
  m_ids :: "string list"
  m_rows :: "catalog_row list option"
  m_updated_at :: int

text \<open>A path is the list of its components; file contents are strings of bytes.\<close>

type_synonym path = "string list"

record disk =
  npz_file :: "npz cache_file"
  idx_file :: "manifest cache_file"
  runs_files :: "path \<rightharpoonup> string"

text \<open>\<^verbatim>\<open>a.shape[1]\<close>: a one-dimensional array has no second axis.\<close>

definition shape1 :: "ndarray \<Rightarrow> error + int" where
  "shape1 a = (case a of Array1 v \<Rightarrow> Inl IndexError | Array2 w rows \<Rightarrow> Inr (int w))"

text \<open>
  \<^verbatim>\<open>_save_cache\<close> on the rows and the two stacked matrices of a build; \<open>now\<close> is
  \<^verbatim>\<open>int(time.time())\<close>.
\<close>

definition save_cache :: "int \<Rightarrow> catalog_row list \<Rightarrow> matrix \<Rightarrow> matrix \<Rightarrow> disk \<Rightarrow> disk" where
  "save_cache now rows im tx d =
     d\<lparr>npz_file := Parsed \<lparr>npz_img_embs = Some (array2 im), npz_txt_embs = Some (array2 tx)\<rparr>,
       idx_file := Parsed \<lparr>m_embedding_dim = Some (DimInt (int (width_of im))),
                            m_ids = map sku_id rows,
                            m_rows = Some rows,
                            m_updated_at = now\<rparr>\<rparr>"

text \<open>
  \<^verbatim>\<open>_try_load_cache\<close>. The four assignments to \<^verbatim>\<open>state\<close> stand inside the \<^verbatim>\<open>try\<close> block in
  the order of the source, each after the read it depends on; an exception at any point
  leaves the assignments made before it in place and returns \<^verbatim>\<open>False\<close>. In the last
  statement the default \<^verbatim>\<open>state.img_embs.shape[1]\<close> is evaluated before \<^verbatim>\<open>idx.get\<close> is called,
  whether or not the manifest has the key.
\<close>

definition try_load_cache :: "disk \<Rightarrow> state \<Rightarrow> state \<times> bool" where
  "try_load_cache d st =
     (case npz_file d of
        Missing \<Rightarrow> (st, False)
      | Corrupt \<Rightarrow> (st, False)
      | Parsed z \<Rightarrow>
          (case idx_file d of
             Missing \<Rightarrow> (st, False)
           | Corrupt \<Rightarrow> (st, False)
           | Parsed idx \<Rightarrow>
               (case npz_img_embs z of
                  None \<Rightarrow> (st, False)
                | Some im \<Rightarrow>
                    (let st1 = st\<lparr>img_embs := Some im\<rparr> in
                     case npz_txt_embs z of
                       None \<Rightarrow> (st1, False)
                     | Some tx \<Rightarrow>
                         (let st2 = st1\<lparr>txt_embs := Some tx\<rparr> in
                          case m_rows idx of
                            None \<Rightarrow> (st2, False)
                          | Some rows \<Rightarrow>
                              (let st3 = st2\<lparr>catalog_rows := rows\<rparr> in
                               case shape1 im of
                                 Inl err \<Rightarrow> (st3, False)
                               | Inr w \<Rightarrow>
                                   (case m_embedding_dim idx of
                                      None \<Rightarrow> (st3\<lparr>embedding_dim := Some w\<rparr>, True)
                                    | Some (DimInt n) \<Rightarrow> (st3\<lparr>embedding_dim := Some n\<rparr>, True)
                                    | Some DimNotInt \<Rightarrow> (st3, False))))))))"

subsection \<open>\<^verbatim>\<open>_build_catalog\<close>\<close>

record report =
  status :: string
  catalog_size :: nat
  report_dim :: "int option"

definition build_catalog ::
  "'img env \<Rightarrow> int \<Rightarrow> string \<Rightarrow> bool \<Rightarrow> state \<times> disk \<Rightarrow> (state \<times> disk) \<times> (error + report)" where
  "build_catalog e now csv_path force sd =
     (case sd of (st, d) \<Rightarrow>
        (case (if force then (st, False) else try_load_cache d st) of (st1, loaded) \<Rightarrow>
           if loaded then
             ((st1, d), Inr \<lparr>status = ''loaded'', catalog_size = length (catalog_rows st1),
                             report_dim = embedding_dim st1\<rparr>)
           else
             (case load_catalog e csv_path of
                Inl err \<Rightarrow> ((st1, d), Inl err)
              | Inr c \<Rightarrow>
                  (let st2 = st1\<lparr>catalog_rows := cat_rows c\<rparr>;
                       st3 = st2\<lparr>img_embs := Some (array2 (cat_img_embs c))\<rparr>;
                       st4 = st3\<lparr>txt_embs := Some (array2 (cat_txt_embs c))\<rparr>;
                       st5 = st4\<lparr>embedding_dim := Some (int (width_of (cat_img_embs c)))\<rparr>;
                       d1 = save_cache now (cat_rows c) (cat_img_embs c) (cat_txt_embs c) d
                   in ((st5, d1), Inr \<lparr>status = ''success'',
                                        catalog_size = length (catalog_rows st5),
                                        report_dim = embedding_dim st5\<rparr>)))))"

subsection \<open>\<^verbatim>\<open>/catalog/query\<close>\<close>

record query_item =
  q_sku_id :: string
  q_title :: string
  q_brand :: string
  q_image_url :: string

record query_response =
  items :: "query_item list"
  missing :: "string list"

text \<open>The dictionary comprehension: a later row replaces an earlier one with the same id.\<close>

definition rows_by_id :: "catalog_row list \<Rightarrow> (string \<rightharpoonup> catalog_row)" where
  "rows_by_id rows = fold (\<lambda>r m. m(sku_id r \<mapsto> r)) rows Map.empty"

definition mk_item :: "catalog_row \<Rightarrow> query_item" where
  "mk_item r = \<lparr>q_sku_id = sku_id r, q_title = title r, q_brand = brand r,
               q_image_url = image_path r\<rparr>"

text \<open>
  The loop over \<^verbatim>\<open>req.sku_ids\<close>. A row is a dictionary with keys, so \<^verbatim>\<open>if r\<close> holds exactly
  when \<^verbatim>\<open>rows_by_id.get\<close> found one.
\<close>

fun query_loop ::
  "(string \<rightharpoonup> catalog_row) \<Rightarrow> string list \<Rightarrow> query_item list \<times> string list
     \<Rightarrow> query_item list \<times> string list" where
  "query_loop m [] acc = acc"
| "query_loop m (sid # rest) (its, mis) =
     (case m sid of
        Some r \<Rightarrow> query_loop m rest (its @ [mk_item r], mis)
      | None \<Rightarrow> query_loop m rest (its, mis @ [sid]))"

definition catalog_query ::
  "'img env \<Rightarrow> int \<Rightarrow> string list \<Rightarrow> state \<times> disk
     \<Rightarrow> (state \<times> disk) \<times> (error + query_response)" where
  "catalog_query e now sku_ids sd =
     (case sd of (st, d) \<Rightarrow>
        (case (if catalog_rows st = [] \<and> path_exists e (catalog_path st)
               then (case build_catalog e now (catalog_path st) False (st, d) of
                       (sd1, Inl err) \<Rightarrow> (sd1, Some err)
                     | (sd1, Inr _) \<Rightarrow> (sd1, None))
               else ((st, d), None)) of
           (sd1, Some err) \<Rightarrow> (sd1, Inl err)
         | ((st1, d1), None) \<Rightarrow>
             (case query_loop (rows_by_id (catalog_rows st1)) sku_ids ([], []) of
                (its, mis) \<Rightarrow> ((st1, d1), Inr \<lparr>items = its, missing = mis\<rparr>))))"

subsection \<open>Scoring and ranking\<close>

text \<open>
  \<^verbatim>\<open>cos_sim(a, b)\<close>: one value per row of the bank \<open>b\<close>. The matrix product raises when the
  width of \<open>b\<close> is not the length of \<open>a\<close>, and the norm along axis 1 raises on a
  one-dimensional \<open>b\<close>.
\<close>

definition cos_sim :: "'img env \<Rightarrow> vec \<Rightarrow> ndarray \<Rightarrow> error + real list" where
  "cos_sim e a b =
     (case b of
        Array1 v \<Rightarrow> Inl ValueError
      | Array2 w rows \<Rightarrow>
          if w = length a then Inr (map (cos_row e a) rows) else Inl ValueError)"

text \<open>
  \<^verbatim>\<open>alpha_img * s_img + (1 - alpha_img) * s_txt\<close> on two one-dimensional arrays: numpy
  stretches an array of length one to the length of the other and refuses any other
  difference in length.
\<close>

definition fuse_scores :: "'img env \<Rightarrow> real \<Rightarrow> real list \<Rightarrow> real list \<Rightarrow> error + real list" where
  "fuse_scores e alpha s_img s_txt =
     (if length s_img = length s_txt then Inr (map2 (fuse e alpha) s_img s_txt)
      else if length s_img = 1 then Inr (map (fuse e alpha (hd s_img)) s_txt)
      else if length s_txt = 1 then Inr (map (\<lambda>s. fuse e alpha s (hd s_txt)) s_img)
      else Inl ValueError)"

text \<open>The slice \<^verbatim>\<open>xs[:k]\<close>: a negative \<open>k\<close> counts from the end.\<close>

definition py_take :: "int \<Rightarrow> 'a list \<Rightarrow> 'a list" where
  "py_take k xs = (if 0 \<le> k then take (nat k) xs else take (nat (int (length xs) + k)) xs)"

text \<open>The length of the slice \<^verbatim>\<open>xs[:k]\<close> of a list of length \<open>n\<close>.\<close>

definition slice_len :: "int \<Rightarrow> nat \<Rightarrow> nat" where
  "slice_len k n = (if 0 \<le> k then min (nat k) n else nat (int n + k))"

definition mk_reco :: "catalog_row \<Rightarrow> real \<Rightarrow> reco" where
  "mk_reco row s = \<lparr>r_sku_id = sku_id row, r_title = title row, r_brand = brand row,
                    r_image_url = image_path row, r_score = s\<rparr>"

text \<open>The loop \<^verbatim>\<open>for j in idx\<close>; both subscripts raise out of range.\<close>

fun recos_loop :: "catalog_row list \<Rightarrow> real list \<Rightarrow> nat list \<Rightarrow> reco list \<Rightarrow> error + reco list" where
  "recos_loop rows score [] recos = Inr recos"
| "recos_loop rows score (j # idx) recos =
     (if j < length rows \<and> j < length score
      then recos_loop rows score idx (recos @ [mk_reco (rows ! j) (score ! j)])
      else Inl IndexError)"

text \<open>\<^verbatim>\<open>np.argsort(-score)[: int(topk)]\<close>.\<close>

definition top_indices :: "'img env \<Rightarrow> real list \<Rightarrow> int \<Rightarrow> nat list" where
  "top_indices e score topk = py_take topk (argsort e (map uminus score))"

text \<open>The fused score of a query embedding against the two banks.\<close>

definition fused_score :: "'img env \<Rightarrow> real \<Rightarrow> vec \<Rightarrow> ndarray \<Rightarrow> ndarray \<Rightarrow> error + real list" where
  "fused_score e alpha emb ib tb =
     (case cos_sim e emb ib of
        Inl err \<Rightarrow> Inl err
      | Inr s_img \<Rightarrow>
          (case cos_sim e emb tb of
             Inl err \<Rightarrow> Inl err
           | Inr s_txt \<Rightarrow> fuse_scores e alpha s_img s_txt))"

text \<open>
  One turn of the loop \<^verbatim>\<open>for inst in instances\<close> of \<^verbatim>\<open>recommend\<close>, up to the list \<^verbatim>\<open>recos\<close>
  (\<^verbatim>\<open>recommend_for_image\<close> runs the same steps with the constants \<^verbatim>\<open>ALPHA_IMG\<close> and
  \<^verbatim>\<open>TOPK\<close>).
\<close>

definition rank_instance ::
  "'img env \<Rightarrow> catalog_row list \<Rightarrow> ndarray \<Rightarrow> ndarray \<Rightarrow> real \<Rightarrow> int \<Rightarrow> vec \<Rightarrow> error + reco list" where
  "rank_instance e rows ib tb alpha topk emb =
     (case fused_score e alpha emb ib tb of
        Inl err \<Rightarrow> Inl err
      | Inr score \<Rightarrow> recos_loop rows score (top_indices e score topk) [])"

fun rank_loop ::
  "'img env \<Rightarrow> catalog_row list \<Rightarrow> ndarray \<Rightarrow> ndarray \<Rightarrow> real \<Rightarrow> int
     \<Rightarrow> 'img detected_instance list \<Rightarrow> inst_result list \<Rightarrow> error + inst_result list" where
  "rank_loop e rows ib tb alpha topk [] results = Inr results"
| "rank_loop e rows ib tb alpha topk (inst # rest) results =
     (case rank_instance e rows ib tb alpha topk (encode_image e (crop inst)) of
        Inl err \<Rightarrow> Inl err
      | Inr recos \<Rightarrow>
          rank_loop e rows ib tb alpha topk rest
            (results @ [\<lparr>res_bbox = bbox inst, res_class = cls inst, res_det_conf = conf inst,
                          top_k = recos,
                          top1 = (case recos of [] \<Rightarrow> None | r # _ \<Rightarrow> Some r)\<rparr>]))"

subsection \<open>\<^verbatim>\<open>/recommend\<close>\<close>

text \<open>Decimal digits of \<^verbatim>\<open>int(time.time() * 1000)\<close>.\<close>

fun str_nat :: "nat \<Rightarrow> string" where
  "str_nat n =
     (if n < 10 then [''0123456789'' ! n]
      else str_nat (n div 10) @ [''0123456789'' ! (n mod 10)])"

declare str_nat.simps [simp del]

definition upload_name :: "nat \<Rightarrow> string \<Rightarrow> string" where
  "upload_name stamp filename = str_nat stamp @ ''_'' @ filename"

text \<open>
  The parts of a relative path given as a string, as \<^verbatim>\<open>pathlib\<close> splits it: at the slashes,
  without the empty parts and the parts \<^verbatim>\<open>.\<close> (a part \<^verbatim>\<open>..\<close> stays).
\<close>

fun split_slash :: "string \<Rightarrow> string list" where
  "split_slash [] = [[]]"
| "split_slash (c # cs) =
     (if c = CHR ''/'' then [] # split_slash cs
      else (case split_slash cs of [] \<Rightarrow> [[c]] | w # ws \<Rightarrow> (c # w) # ws))"

definition path_parts :: "string \<Rightarrow> string list" where
  "path_parts s = filter (\<lambda>p. p \<noteq> [] \<and> p \<noteq> ''.'') (split_slash s)"

text \<open>
  \<^verbatim>\<open>RUNS_DIR / "uploads" / f"{stamp}_{image.filename}"\<close> and
  \<^verbatim>\<open>RUNS_DIR / f"{img_path.stem}_vis.jpg"\<close>, with the default \<^verbatim>\<open>runs\<close> for \<^verbatim>\<open>RUNS_DIR\<close>. The file
  name comes from the client: one that holds a slash puts the upload into a directory
  below \<^verbatim>\<open>uploads\<close>. \<open>path_name\<close> is \<^verbatim>\<open>Path.name\<close>, the last part.
\<close>

definition upload_path :: "nat \<Rightarrow> string \<Rightarrow> path" where
  "upload_path stamp filename = [''runs'', ''uploads''] @ path_parts (upload_name stamp filename)"

definition path_name :: "path \<Rightarrow> string" where
  "path_name p = (case rev p of [] \<Rightarrow> [] | n # _ \<Rightarrow> n)"

definition vis_name :: "'img env \<Rightarrow> nat \<Rightarrow> string \<Rightarrow> string" where
  "vis_name e stamp filename = stem e (path_name (upload_path stamp filename)) @ ''_vis.jpg''"

definition vis_path :: "'img env \<Rightarrow> nat \<Rightarrow> string \<Rightarrow> path" where
  "vis_path e stamp filename = [''runs'', vis_name e stamp filename]"

text \<open>
  Creating a file and writing it: \<^verbatim>\<open>open(p, "wb")\<close> raises where the operating system
  refuses the path, and nothing is written then.
\<close>

definition write_file :: "'img env \<Rightarrow> path \<Rightarrow> string \<Rightarrow> disk \<Rightarrow> error + disk" where
  "write_file e p content d =
     (if can_write e p then Inr (d\<lparr>runs_files := (runs_files d)(p \<mapsto> content)\<rparr>)
      else Inl IOError)"

text \<open>
  \<^verbatim>\<open>draw_and_save\<close>: the label of every instance reads \<^verbatim>\<open>inst["top1"]["sku_id"]\<close>, which raises
  when \<^verbatim>\<open>top1\<close> is \<^verbatim>\<open>None\<close>; the image is saved after the loop.
\<close>

definition draw_and_save ::
  "'img env \<Rightarrow> 'img \<Rightarrow> inst_result list \<Rightarrow> path \<Rightarrow> disk \<Rightarrow> error + disk" where
  "draw_and_save e pil results out_path d =
     (if list_all (\<lambda>r. top1 r \<noteq> None) results
      then write_file e out_path (render e pil results) d
      else Inl TypeError)"

text \<open>
  The handler of \<^verbatim>\<open>/recommend\<close>: \<open>stamp\<close> is the millisecond clock, \<open>filename\<close> and \<open>content\<close>
  the uploaded file. It returns the files as it leaves them, with the response or the
  error that ends the request.
\<close>

definition recommend ::
  "'img env \<Rightarrow> state \<Rightarrow> nat \<Rightarrow> string \<Rightarrow> string \<Rightarrow> int \<Rightarrow> real \<Rightarrow> bool \<Rightarrow> disk
     \<Rightarrow> disk \<times> (error + response)" where
  "recommend e st stamp filename content topk alpha_img return_vis d =
     (case (img_embs st, txt_embs st) of
        (None, _) \<Rightarrow> (d, Inl CatalogNotReady)
      | (Some ib, None) \<Rightarrow> (d, Inl CatalogNotReady)
      | (Some ib, Some tb) \<Rightarrow>
          (case write_file e (upload_path stamp filename) content d of
             Inl err \<Rightarrow> (d, Inl err)
           | Inr d1 \<Rightarrow>
               (case detect_instances e content of
                  Inl err \<Rightarrow> (d1, Inl err)
                | Inr (pil, insts) \<Rightarrow>
                    (case rank_loop e (catalog_rows st) ib tb alpha_img topk insts [] of
                       Inl err \<Rightarrow> (d1, Inl err)
                     | Inr results \<Rightarrow>
                         if return_vis \<and> results \<noteq> [] then
                           (case draw_and_save e pil results (vis_path e stamp filename) d1 of
                              Inl err \<Rightarrow> (d1, Inl err)
                            | Inr d2 \<Rightarrow>
                                (d2, Inr \<lparr>image_url = ''/runs/uploads/'' @
                                             path_name (upload_path stamp filename),
                                          vis_url = Some (''/runs/'' @ vis_name e stamp filename),
                                          instances = results\<rparr>))
                         else
                           (d1, Inr \<lparr>image_url = ''/runs/uploads/'' @
                                        path_name (upload_path stamp filename),
                                     vis_url = None,
                                     instances = results\<rparr>)))))"

subsection \<open>Specification predicates\<close>

text \<open>
  What \<^verbatim>\<open>np.argsort\<close> promises for every \<^verbatim>\<open>kind\<close>: the result is a permutation of the
  indices that puts the keys in ascending order. The default \<^verbatim>\<open>kind\<close> (\<^verbatim>\<open>'quicksort'\<close>) is
  not a stable sort, so the order of indices with equal keys is left open.
\<close>

definition is_argsort :: "(real list \<Rightarrow> nat list) \<Rightarrow> bool" where
  "is_argsort f =
     (\<forall>xs. mset (f xs) = mset [0..<length xs] \<and> sorted (map (\<lambda>i. xs ! i) (f xs)))"

text \<open>
  An index of \<open>N\<close> rows whose two banks have \<open>N\<close> rows of the width of the query embedding.
\<close>

definition is_bank :: "ndarray \<Rightarrow> nat \<Rightarrow> nat \<Rightarrow> bool" where
  "is_bank b N D =
     (case b of
        Array1 v \<Rightarrow> False
      | Array2 w rows \<Rightarrow> w = D \<and> length rows = N \<and> list_all (\<lambda>r. length r = D) rows)"

definition index_ok :: "catalog_row list \<Rightarrow> ndarray \<Rightarrow> ndarray \<Rightarrow> vec \<Rightarrow> nat \<Rightarrow> bool" where
  "index_ok rows ib tb emb N =
     (length rows = N \<and> is_bank ib N (length emb) \<and> is_bank tb N (length emb))"

text \<open>
  A ranking \<open>idx\<close> breaks ties by row order: of two ranked rows with the same score, the one
  with the smaller row number comes first.
\<close>

definition ties_in_row_order :: "real list \<Rightarrow> nat list \<Rightarrow> bool" where
  "ties_in_row_order score idx =
     (\<forall>a b. a < b \<and> b < length idx \<and> score ! (idx ! a) = score ! (idx ! b)
         \<longrightarrow> idx ! a < idx ! b)"

text \<open>
  A ranking \<open>idx\<close> is a best selection: distinct rows in descending order of score, and no
  row left out scores higher than a row that was taken.
\<close>

definition best_selection :: "real list \<Rightarrow> nat list \<Rightarrow> bool" where
  "best_selection score idx =
     (distinct idx \<and> set idx \<subseteq> {..<length score} \<and>
      sorted_wrt (\<lambda>x y. x \<ge> y) (map (\<lambda>i. score ! i) idx) \<and>
      (\<forall>j < length score. j \<notin> set idx \<longrightarrow> (\<forall>i \<in> set idx. score ! j \<le> score ! i)))"

subsection \<open>Example data\<close>

definition row_a :: catalog_row where
  "row_a = \<lparr>sku_id = ''sku-a'', title = ''Item A'', brand = ''Brand A'',
            image_path = ''catalog/a.jpg'', row_text = ''Brand A Item A''\<rparr>"

definition row_b :: catalog_row where
  "row_b = \<lparr>sku_id = ''sku-b'', title = ''Item B'', brand = ''Brand B'',
            image_path = ''catalog/b.jpg'', row_text = ''Brand B Item B''\<rparr>"

definition row_c :: catalog_row where
  "row_c = \<lparr>sku_id = ''sku-c'', title = ''Item C'', brand = ''Brand C'',
            image_path = ''catalog/c.jpg'', row_text = ''Brand C Item C''\<rparr>"

definition csv_cols :: "string list" where
  "csv_cols = [''sku_id'', ''title'', ''brand'', ''image_path'']"

text \<open>A catalog of three lines; the image of the second is not on disk.\<close>

definition demo_csv :: csv_file where
  "demo_csv = \<lparr>fieldnames = csv_cols,
     rows_csv =
      [\<lparr>c_sku_id = Some ''sku-a'', c_title = Some ''Item A'', c_brand = Some ''Brand A'',
        c_image_path = Some ''a.jpg''\<rparr>,
       \<lparr>c_sku_id = Some ''sku-x'', c_title = Some ''Item X'', c_brand = Some ''Brand X'',
        c_image_path = Some ''gone.jpg''\<rparr>,
       \<lparr>c_sku_id = Some ''sku-b'', c_title = Some ''Item B'', c_brand = Some ''Brand B'',
        c_image_path = Some ''b.jpg''\<rparr>]\<rparr>"

text \<open>A catalog none of whose images is on disk.\<close>

definition stale_csv :: csv_file where
  "stale_csv = \<lparr>fieldnames = csv_cols,
     rows_csv =
      [\<lparr>c_sku_id = Some ''sku-x'', c_title = Some ''Item X'', c_brand = Some ''Brand X'',
        c_image_path = Some ''gone.jpg''\<rparr>]\<rparr>"

text \<open>A stable argsort: insertion sort.\<close>

definition argsort_stable :: "real list \<Rightarrow> nat list" where
  "argsort_stable xs = sort_key (\<lambda>i. xs ! i) [0..<length xs]"

text \<open>
  The argsort of NumPy on a processor with vector instructions (AVX-512, AVX2). There
  \<^verbatim>\<open>np.argsort\<close> with the default \<^verbatim>\<open>kind\<close> hands float keys to the sorting networks of
  x86-simd-sort (NumPy 1.25 and later). Four keys pass through three stages of
  compare-exchange steps, on the positions \<open>(0,1) (2,3)\<close>, then \<open>(0,3) (1,2)\<close>, then
  \<open>(0,1) (2,3)\<close>; a step exchanges two entries when the key at the higher position is
  smaller and leaves them in place when the keys are equal. \<open>argsort_network\<close> is that
  network on four keys; on any other number of keys it stands for insertion sort and is
  not used below.
\<close>

definition coex :: "nat \<Rightarrow> nat \<Rightarrow> (real \<times> nat) list \<Rightarrow> (real \<times> nat) list" where
  "coex i j ps = (if fst (ps ! j) < fst (ps ! i) then ps[i := ps ! j, j := ps ! i] else ps)"

definition network4 :: "(real \<times> nat) list \<Rightarrow> (real \<times> nat) list" where
  "network4 ps = coex 2 3 (coex 0 1 (coex 1 2 (coex 0 3 (coex 2 3 (coex 0 1 ps)))))"

definition argsort_network :: "real list \<Rightarrow> nat list" where
  "argsort_network xs =
     (if length xs = 4 then map snd (network4 (zip xs [0..<4])) else argsort_stable xs)"

text \<open>
  An environment in which an image is its path, embeddings are unit vectors of width two,
  the float operations are exact, and the directories \<^verbatim>\<open>runs\<close> and \<^verbatim>\<open>runs/uploads\<close> exist and
  have no directory below them.
\<close>

definition demo_env :: "string env" where
  "demo_env =
     \<lparr>read_csv = (\<lambda>p. if p = ''catalog/catalog.csv'' then Inr demo_csv
                       else if p = ''catalog/stale.csv'' then Inr stale_csv
                       else Inl IOError),
      resolve = (\<lambda>csv_path img. ''catalog/'' @ img),
      path_exists = (\<lambda>p. p = ''catalog/a.jpg'' \<or> p = ''catalog/b.jpg''),
      open_image = (\<lambda>p. Inr p),
      encode_image = (\<lambda>img. if img = ''catalog/a.jpg'' then [1, 0] else [0, 1]),
      encode_text = (\<lambda>t. if t = ''Brand A Item A'' then [1, 0] else [0, 1]),
      detect_instances = (\<lambda>content. if content = [] then Inl DetectionFailure
         else Inr (content, [\<lparr>bbox = [0, 0, 4, 4], cls = ''det-item'', conf = 91 / 100,
                              crop = ''catalog/a.jpg''\<rparr>])),
      render = (\<lambda>pil results. pil),
      stem = takeWhile (\<lambda>c. c \<noteq> CHR ''.''),
      can_write = (\<lambda>p. butlast p = [''runs''] \<or> butlast p = [''runs'', ''uploads'']),
      argsort = argsort_stable,
      cos_row = (\<lambda>a b. sum_list (map2 (*) b a)),
      fuse = (\<lambda>alpha s t. alpha * s + (1 - alpha) * t)\<rparr>"

text \<open>The same environment on a processor with vector instructions.\<close>

definition simd_env :: "string env" where
  "simd_env = demo_env\<lparr>argsort := argsort_network\<rparr>"

definition unit_bank :: matrix where
  "unit_bank = [[1, 0], [0, 1]]"

definition unit_array :: ndarray where
  "unit_array = Array2 2 unit_bank"

text \<open>Two rows with the same embeddings.\<close>

definition tie_array :: ndarray where
  "tie_array = Array2 2 [[1, 0], [1, 0]]"

text \<open>
  An index of four rows: the last two have the embedding of the query, the first two the
  other unit vector.
\<close>

definition row_d :: catalog_row where
  "row_d = \<lparr>sku_id = ''sku-d'', title = ''Item D'', brand = ''Brand D'',
            image_path = ''catalog/d.jpg'', row_text = ''Brand D Item D''\<rparr>"

definition four_rows :: "catalog_row list" where
  "four_rows = [row_a, row_b, row_c, row_d]"

definition four_array :: ndarray where
  "four_array = Array2 2 [[0, 1], [0, 1], [1, 0], [1, 0]]"

text \<open>The state of a process that has loaded nothing, and one that serves two rows.\<close>

definition empty_state :: state where
  "empty_state = \<lparr>catalog_rows = [], img_embs = None, txt_embs = None, embedding_dim = None,
                   catalog_path = ''catalog/catalog.csv''\<rparr>"

definition served_state :: state where
  "served_state = \<lparr>catalog_rows = [row_a, row_b], img_embs = Some unit_array,
                    txt_embs = Some unit_array, embedding_dim = Some 2,
                    catalog_path = ''catalog/catalog.csv''\<rparr>"

definition no_files :: disk where
  "no_files = \<lparr>npz_file = Missing, idx_file = Missing, runs_files = Map.empty\<rparr>"

text \<open>The cache that a build of the two rows writes.\<close>

definition disk_saved :: disk where
  "disk_saved = save_cache 0 [row_a, row_b] unit_bank unit_bank no_files"

text \<open>A cache whose archive holds two rows of embeddings and whose manifest lists one row.\<close>

definition disk_mismatch :: disk where
  "disk_mismatch =
     \<lparr>npz_file = Parsed \<lparr>npz_img_embs = Some unit_array, npz_txt_embs = Some unit_array\<rparr>,
      idx_file = Parsed \<lparr>m_embedding_dim = Some (DimInt 2), m_ids = [''sku-a''],
                          m_rows = Some [row_a], m_updated_at = 0\<rparr>,
      runs_files = Map.empty\<rparr>"

text \<open>A cache whose archive is whole and whose manifest is the JSON document \<^verbatim>\<open>{}\<close>.\<close>

definition disk_no_rows :: disk where
  "disk_no_rows =
     \<lparr>npz_file = Parsed \<lparr>npz_img_embs = Some (Array2 2 [[0, 1]]),
                          npz_txt_embs = Some (Array2 2 [[0, 1]])\<rparr>,
      idx_file = Parsed \<lparr>m_embedding_dim = None, m_ids = [], m_rows = None, m_updated_at = 0\<rparr>,
      runs_files = Map.empty\<rparr>"

section \<open>Verified properties\<close>

subsection \<open>The index built by \<^verbatim>\<open>load_catalog\<close> is aligned\<close>

lemma catalog_loop_inv:
  "catalog_loop e cp rs (ia, ta, rows) = Inr (ia', ta', rows') \<Longrightarrow>
     \<exists>ia2 ta2. ia' = ia @ ia2 \<and> ta' = ta @ ta2 \<and>
       rows' = rows @ map (mk_row e cp) (filter (resolvable e cp) rs) \<and>
       length ia2 = length (filter (resolvable e cp) rs) \<and>
       length ta2 = length (filter (resolvable e cp) rs) \<and>
       (\<forall>i < length ia2. row_embeds e (map (mk_row e cp) (filter (resolvable e cp) rs) ! i) (ia2 ! i) (ta2 ! i))"
proof (induction rs arbitrary: ia ta rows)
  case Nil
  then show ?case by simp
next
  case (Cons row rest)
  show ?case
  proof (cases "resolvable e cp row")
    case False
    with Cons.prems have "catalog_loop e cp rest (ia, ta, rows) = Inr (ia', ta', rows')"
      by (simp add: resolvable_def)
    from Cons.IH [OF this] False show ?thesis by simp
  next
    case True
    then obtain pil where pil: "open_image e (resolve e cp (py_str (c_image_path row))) = Inr pil"
      using Cons.prems by (auto simp: resolvable_def Let_def split: sum.splits)
    let ?r = "mk_row e cp row"
    let ?iv = "encode_image e pil"
    let ?tv = "encode_text e (row_text ?r)"
    from Cons.prems True pil
    have "catalog_loop e cp rest (ia @ [?iv], ta @ [?tv], rows @ [?r]) = Inr (ia', ta', rows')"
      by (simp add: resolvable_def Let_def)
    from Cons.IH [OF this] obtain ia2 ta2 where
      h: "ia' = (ia @ [?iv]) @ ia2" "ta' = (ta @ [?tv]) @ ta2"
         "rows' = (rows @ [?r]) @ map (mk_row e cp) (filter (resolvable e cp) rest)"
         "length ia2 = length (filter (resolvable e cp) rest)"
         "length ta2 = length (filter (resolvable e cp) rest)"
         "\<forall>i < length ia2. row_embeds e (map (mk_row e cp) (filter (resolvable e cp) rest) ! i) (ia2 ! i) (ta2 ! i)"
      by blast
    have emb: "row_embeds e ?r ?iv ?tv"
      using pil by (simp add: row_embeds_def mk_row_def)
    have "\<forall>i < length (?iv # ia2). row_embeds e (map (mk_row e cp) (filter (resolvable e cp) (row # rest)) ! i) ((?iv # ia2) ! i) ((?tv # ta2) ! i)"
      using h(6) emb True by (auto simp: nth_Cons split: nat.splits)
    with h True show ?thesis
      by (intro exI [of _ "?iv # ia2"] exI [of _ "?tv # ta2"]) simp
  qed
qed

lemma vstack_Inr: "vstack vs = Inr m \<Longrightarrow> m = vs"
  by (auto simp: vstack_def split: list.splits if_splits)

lemma load_demo_catalog:
  "load_catalog demo_env ''catalog/catalog.csv'' =
     Inr \<lparr>cat_rows = [row_a, row_b], cat_img_embs = unit_bank, cat_txt_embs = unit_bank\<rparr>"
  by (simp add: load_catalog_def demo_env_def demo_csv_def csv_cols_def required_def
      mk_row_def py_str_def py_strip_def py_isspace_def vstack_def row_a_def row_b_def
      unit_bank_def)

text \<open>
  Claim C1. Whenever \<^verbatim>\<open>load_catalog\<close> returns, the three sequences are aligned: the two
  matrices have as many rows as the metadata; for every \<open>i\<close>, row \<open>i\<close> of \<open>img_embs\<close> is the
  embedding of the image at the path of metadata row \<open>i\<close> and row \<open>i\<close> of \<open>txt_embs\<close> the
  embedding of its text; and the metadata rows are the CSV lines whose image exists, in the
  order of the file, so a line whose image is missing is left out of all three.
\<close>

theorem load_catalog_aligned:
  assumes "load_catalog e csv_path = Inr c"
  shows "length (cat_img_embs c) = length (cat_rows c) \<and>
         length (cat_txt_embs c) = length (cat_rows c) \<and>
         (\<forall>i < length (cat_rows c).
            row_embeds e (cat_rows c ! i) (cat_img_embs c ! i) (cat_txt_embs c ! i)) \<and>
         (\<exists>f. read_csv e csv_path = Inr f \<and>
              cat_rows c = map (mk_row e csv_path) (filter (resolvable e csv_path) (rows_csv f)))"
proof -
  from assms obtain f ia ta rows where
    f: "read_csv e csv_path = Inr f" and
    loop: "catalog_loop e csv_path (rows_csv f) ([], [], []) = Inr (ia, ta, rows)" and
    c: "c = \<lparr>cat_rows = rows, cat_img_embs = ia, cat_txt_embs = ta\<rparr>"
    by (auto simp: load_catalog_def split: sum.splits if_splits dest!: vstack_Inr)
  from catalog_loop_inv [OF loop] show ?thesis
    using f c by auto
qed

theorem load_catalog_aligned_witness:
  "load_catalog demo_env ''catalog/catalog.csv'' =
     Inr \<lparr>cat_rows = [row_a, row_b], cat_img_embs = unit_bank, cat_txt_embs = unit_bank\<rparr> \<and>
   length unit_bank = length [row_a, row_b] \<and>
   row_embeds demo_env row_b (unit_bank ! 1) (unit_bank ! 1)"
proof -
  note h = load_catalog_aligned [OF load_demo_catalog]
  from h have "\<forall>i < length [row_a, row_b].
      row_embeds demo_env ([row_a, row_b] ! i) (unit_bank ! i) (unit_bank ! i)"
    by simp
  then have "row_embeds demo_env ([row_a, row_b] ! 1) (unit_bank ! 1) (unit_bank ! 1)"
    by (auto dest: spec [of _ 1])
  with h load_demo_catalog show ?thesis by simp
qed

subsection \<open>\<^verbatim>\<open>/catalog/query\<close> partitions the request\<close>

lemma fold_rows_by_id:
  "fold (\<lambda>r m. m(sku_id r \<mapsto> r)) rows m = m ++ map_of (rev (map (\<lambda>r. (sku_id r, r)) rows))"
proof (induction rows arbitrary: m)
  case Nil
  show ?case by simp
next
  case (Cons x xs)
  have "m(sku_id x \<mapsto> x) ++ map_of (rev (map (\<lambda>r. (sku_id r, r)) xs)) =
        m ++ ([sku_id x \<mapsto> x] ++ map_of (rev (map (\<lambda>r. (sku_id r, r)) xs)))"
    by (rule ext) (simp add: map_add_def split: option.splits)
  then show ?case
    by (simp add: Cons.IH del: fun_upd_apply)
qed

lemma rows_by_id_map_of:
  "rows_by_id rows = map_of (rev (map (\<lambda>r. (sku_id r, r)) rows))"
  by (simp add: rows_by_id_def fold_rows_by_id)

lemma rows_by_id_None: "rows_by_id rows sid = None \<longleftrightarrow> sid \<notin> sku_id ` set rows"
  by (simp add: rows_by_id_map_of map_of_eq_None_iff image_image)

lemma rows_by_id_Some:
  "rows_by_id rows sid = Some r \<Longrightarrow> r \<in> set rows \<and> sku_id r = sid"
  by (auto simp: rows_by_id_map_of dest!: map_of_SomeD)

lemma query_loop_eq:
  "query_loop m sids (its, mis) =
     (its @ map (\<lambda>s. mk_item (the (m s))) (filter (\<lambda>s. m s \<noteq> None) sids),
      mis @ filter (\<lambda>s. m s = None) sids)"
  by (induction sids arbitrary: its mis) (auto split: option.splits)


lemma map_of_rev_last:
  "map_of (rev (map (\<lambda>r. (f r, r)) rows)) k = Some r \<Longrightarrow> r = last (filter (\<lambda>r'. f r' = k) rows)"
proof (induction rows rule: rev_induct)
  case Nil
  then show ?case by simp
next
  case (snoc x xs)
  then show ?case by (auto split: if_splits)
qed

lemma rows_by_id_last:
  "rows_by_id rows sid = Some r \<Longrightarrow> r = last (filter (\<lambda>r'. sku_id r' = sid) rows)"
  by (simp add: rows_by_id_map_of map_of_rev_last)

text \<open>
  Claim C10. On a populated catalog, \<^verbatim>\<open>catalog_query\<close> leaves the state as it is and splits
  the request: \<open>missing\<close> is the sub-list of requested ids that no catalog row carries,
  \<open>items\<close> answers the sub-list of those some row carries, in the order of the request;
  the item for a requested id has that id and the title, the brand and the image path of a
  catalog row with that id (the last one, if several rows carry it); every requested id is
  answered once, in one of the two lists.
\<close>

theorem catalog_query_partition:
  assumes "catalog_rows st \<noteq> []"
  shows "\<exists>its mis.
     catalog_query e now sku_ids (st, d) = ((st, d), Inr \<lparr>items = its, missing = mis\<rparr>) \<and>
     mis = filter (\<lambda>s. s \<notin> sku_id ` set (catalog_rows st)) sku_ids \<and>
     map q_sku_id its = filter (\<lambda>s. s \<in> sku_id ` set (catalog_rows st)) sku_ids \<and>
     (\<forall>it \<in> set its. \<exists>r \<in> set (catalog_rows st).
        q_sku_id it = sku_id r \<and> q_title it = title r \<and> q_brand it = brand r \<and>
        q_image_url it = image_path r \<and>
        r = last (filter (\<lambda>r'. sku_id r' = q_sku_id it) (catalog_rows st))) \<and>
     mset (map q_sku_id its) + mset mis = mset sku_ids \<and>
     length its + length mis = length sku_ids"
proof -
  let ?m = "rows_by_id (catalog_rows st)"
  let ?its = "map (\<lambda>s. mk_item (the (?m s))) (filter (\<lambda>s. ?m s \<noteq> None) sku_ids)"
  let ?mis = "filter (\<lambda>s. ?m s = None) sku_ids"
  have run: "catalog_query e now sku_ids (st, d) = ((st, d), Inr \<lparr>items = ?its, missing = ?mis\<rparr>)"
    using assms by (simp add: catalog_query_def query_loop_eq)
  have mis: "?mis = filter (\<lambda>s. s \<notin> sku_id ` set (catalog_rows st)) sku_ids"
    by (simp add: rows_by_id_None)
  have sku: "q_sku_id (mk_item (the (?m s))) = s" if "?m s \<noteq> None" for s
    using that rows_by_id_Some [of "catalog_rows st" s] by (auto simp: mk_item_def)
  have "map q_sku_id ?its = filter (\<lambda>s. ?m s \<noteq> None) sku_ids"
    by (induction sku_ids) (auto simp: sku)
  then have ids: "map q_sku_id ?its = filter (\<lambda>s. s \<in> sku_id ` set (catalog_rows st)) sku_ids"
    by (simp add: rows_by_id_None)
  have from_rows: "\<forall>it \<in> set ?its. \<exists>r \<in> set (catalog_rows st).
        q_sku_id it = sku_id r \<and> q_title it = title r \<and> q_brand it = brand r \<and>
        q_image_url it = image_path r \<and>
        r = last (filter (\<lambda>r'. sku_id r' = q_sku_id it) (catalog_rows st))"
  proof
    fix it assume "it \<in> set ?its"
    then obtain s r where s: "?m s = Some r" and it: "it = mk_item r"
      by auto
    from rows_by_id_Some [OF s] have r: "r \<in> set (catalog_rows st)" "sku_id r = s"
      by simp_all
    have f1: "q_sku_id it = sku_id r" and f2: "q_title it = title r" and
      f3: "q_brand it = brand r" and f4: "q_image_url it = image_path r"
      by (simp_all add: it mk_item_def)
    have f5: "r = last (filter (\<lambda>r'. sku_id r' = q_sku_id it) (catalog_rows st))"
      using rows_by_id_last [OF s] unfolding f1 r(2) .
    show "\<exists>r \<in> set (catalog_rows st).
        q_sku_id it = sku_id r \<and> q_title it = title r \<and> q_brand it = brand r \<and>
        q_image_url it = image_path r \<and>
        r = last (filter (\<lambda>r'. sku_id r' = q_sku_id it) (catalog_rows st))"
      by (rule bexI [OF _ r(1)]) (intro conjI f1 f2 f3 f4 f5)
  qed
  have ms: "mset (map q_sku_id ?its) + mset ?mis = mset sku_ids"
    unfolding ids mis by (induction sku_ids) auto
  have len: "length ?its + length ?mis = length sku_ids"
    using sum_length_filter_compl [of "\<lambda>s. ?m s \<noteq> None" sku_ids] by simp
  show ?thesis
  proof (intro exI conjI)
    show "catalog_query e now sku_ids (st, d) = ((st, d), Inr \<lparr>items = ?its, missing = ?mis\<rparr>)"
      by (rule run)
  qed (rule mis ids from_rows ms len)+
qed

lemma demo_query:
  "catalog_query demo_env 0 [''sku-b'', ''nope'', ''sku-a''] (served_state, no_files) =
     ((served_state, no_files),
      Inr \<lparr>items =
             [\<lparr>q_sku_id = ''sku-b'', q_title = ''Item B'', q_brand = ''Brand B'',
               q_image_url = ''catalog/b.jpg''\<rparr>,
              \<lparr>q_sku_id = ''sku-a'', q_title = ''Item A'', q_brand = ''Brand A'',
               q_image_url = ''catalog/a.jpg''\<rparr>],
           missing = [''nope'']\<rparr>)"
  by (simp add: catalog_query_def served_state_def rows_by_id_def mk_item_def row_a_def row_b_def)

theorem catalog_query_partition_witness:
  "catalog_rows served_state \<noteq> [] \<and>
   catalog_query demo_env 0 [''sku-b'', ''nope'', ''sku-a''] (served_state, no_files) =
     ((served_state, no_files),
      Inr \<lparr>items =
             [\<lparr>q_sku_id = ''sku-b'', q_title = ''Item B'', q_brand = ''Brand B'',
               q_image_url = ''catalog/b.jpg''\<rparr>,
              \<lparr>q_sku_id = ''sku-a'', q_title = ''Item A'', q_brand = ''Brand A'',
               q_image_url = ''catalog/a.jpg''\<rparr>],
           missing = [''nope'']\<rparr>) \<and>
   [''nope''] = filter (\<lambda>s. s \<notin> sku_id ` set (catalog_rows served_state))
     [''sku-b'', ''nope'', ''sku-a'']"
proof -
  have h: "catalog_rows served_state \<noteq> []"
    by (simp add: served_state_def)
  from catalog_query_partition [OF h, of demo_env 0 "[''sku-b'', ''nope'', ''sku-a'']" no_files]
  obtain its mis where
    "catalog_query demo_env 0 [''sku-b'', ''nope'', ''sku-a''] (served_state, no_files) =
       ((served_state, no_files), Inr \<lparr>items = its, missing = mis\<rparr>)" and
    "mis = filter (\<lambda>s. s \<notin> sku_id ` set (catalog_rows served_state))
       [''sku-b'', ''nope'', ''sku-a'']"
    by (elim exE conjE) (rule that)
  with demo_query h show ?thesis by simp
qed

subsection \<open>The cache loader\<close>

text \<open>
  A failure before the first assignment leaves the state as it was: a file is absent, a
  reader rejects its file, or the archive has no \<^verbatim>\<open>img_embs\<close>.
\<close>

lemma try_load_cache_fails_early:
  "npz_file d = Missing \<or> npz_file d = Corrupt \<or> idx_file d = Missing \<or> idx_file d = Corrupt \<or>
   (\<exists>z. npz_file d = Parsed z \<and> npz_img_embs z = None) \<Longrightarrow>
   try_load_cache d st = (st, False)"
  by (auto simp: try_load_cache_def split: cache_file.splits)

lemma load_saved_cache:
  "try_load_cache disk_saved empty_state = (served_state, True)"
  by (simp add: try_load_cache_def disk_saved_def save_cache_def no_files_def empty_state_def
      served_state_def unit_array_def unit_bank_def array2_def width_of_def shape1_def)

text \<open>
  Claim C2, as the code has it. \<^verbatim>\<open>_try_load_cache\<close> returns \<^verbatim>\<open>True\<close> only if both files exist
  and are read without error, the archive holds \<^verbatim>\<open>img_embs\<close> and \<^verbatim>\<open>txt_embs\<close>, \<^verbatim>\<open>img_embs\<close> has a
  second axis, and the manifest holds \<^verbatim>\<open>rows\<close>; the state then holds the two arrays and the
  rows of the cache as they are. The numbers of rows of the arrays and of the manifest are
  not compared.
\<close>

theorem try_load_cache_succeeds_only_if:
  assumes "snd (try_load_cache d st)"
  shows "\<exists>z idx im tx rows w.
     npz_file d = Parsed z \<and> idx_file d = Parsed idx \<and>
     npz_img_embs z = Some im \<and> npz_txt_embs z = Some tx \<and> m_rows idx = Some rows \<and>
     shape1 im = Inr w \<and>
     img_embs (fst (try_load_cache d st)) = Some im \<and>
     txt_embs (fst (try_load_cache d st)) = Some tx \<and>
     catalog_rows (fst (try_load_cache d st)) = rows"
  using assms
  by (auto simp: try_load_cache_def Let_def
      split: cache_file.splits option.splits json_dim.splits sum.splits)

theorem try_load_cache_succeeds_only_if_witness:
  "snd (try_load_cache disk_saved empty_state) \<and>
   npz_file disk_saved = Parsed \<lparr>npz_img_embs = Some unit_array, npz_txt_embs = Some unit_array\<rparr> \<and>
   shape1 unit_array = Inr 2 \<and>
   img_embs (fst (try_load_cache disk_saved empty_state)) = Some unit_array \<and>
   catalog_rows (fst (try_load_cache disk_saved empty_state)) = [row_a, row_b]"
proof -
  have h: "snd (try_load_cache disk_saved empty_state)"
    by (simp add: load_saved_cache)
  have z: "npz_file disk_saved =
      Parsed \<lparr>npz_img_embs = Some unit_array, npz_txt_embs = Some unit_array\<rparr>"
    by (simp add: disk_saved_def save_cache_def unit_array_def unit_bank_def array2_def
        width_of_def)
  from try_load_cache_succeeds_only_if [OF h] obtain im rows w where
    "shape1 im = Inr w" "img_embs (fst (try_load_cache disk_saved empty_state)) = Some im"
    "catalog_rows (fst (try_load_cache disk_saved empty_state)) = rows"
    by (elim exE conjE) (rule that)
  with h z show ?thesis
    by (simp add: load_saved_cache served_state_def) (simp add: shape1_def unit_array_def)
qed

text \<open>
  Claim C2 as stated fails: a cache whose matrices have two rows and whose manifest lists
  one row is accepted, and the state then holds two rows of embeddings for one row of
  metadata.
\<close>

theorem try_load_cache_row_count_counterexample:
  "try_load_cache disk_mismatch empty_state =
     (empty_state\<lparr>img_embs := Some (Array2 2 [[1, 0], [0, 1]]),
                  txt_embs := Some (Array2 2 [[1, 0], [0, 1]]),
                  catalog_rows := [row_a], embedding_dim := Some 2\<rparr>, True)"
  by (simp add: try_load_cache_def disk_mismatch_def empty_state_def unit_array_def
      unit_bank_def shape1_def)

text \<open>
  Claim C3 fails on the code: with a whole archive and a manifest without \<^verbatim>\<open>rows\<close>,
  \<^verbatim>\<open>_try_load_cache\<close> returns \<^verbatim>\<open>False\<close> after it has replaced \<^verbatim>\<open>img_embs\<close> and \<^verbatim>\<open>txt_embs\<close>; the
  state is not the one before the call.
\<close>

theorem try_load_cache_partial_load:
  "try_load_cache disk_no_rows empty_state =
     (empty_state\<lparr>img_embs := Some (Array2 2 [[0, 1]]), txt_embs := Some (Array2 2 [[0, 1]])\<rparr>,
      False) \<and>
   fst (try_load_cache disk_no_rows empty_state) \<noteq> empty_state"
  by (simp add: try_load_cache_def disk_no_rows_def empty_state_def)

text \<open>
  The same holds for an archive whose \<^verbatim>\<open>img_embs\<close> is one-dimensional: the three fields are
  assigned, then \<^verbatim>\<open>shape[1]\<close> raises, whether or not the manifest names a dimension.
\<close>

lemma try_load_cache_one_dimensional:
  "npz_file d = Parsed z \<Longrightarrow> idx_file d = Parsed idx \<Longrightarrow> npz_img_embs z = Some (Array1 v) \<Longrightarrow>
   npz_txt_embs z = Some tx \<Longrightarrow> m_rows idx = Some rows \<Longrightarrow>
   try_load_cache d st =
     (st\<lparr>img_embs := Some (Array1 v), txt_embs := Some tx, catalog_rows := rows\<rparr>, False)"
  by (simp add: try_load_cache_def shape1_def)

subsection \<open>A build that finds no usable row\<close>

lemma load_catalog_nonempty:
  "load_catalog e csv_path = Inr c \<Longrightarrow> cat_rows c \<noteq> []"
  by (auto simp: load_catalog_def split: sum.splits if_splits prod.splits)

lemma catalog_loop_all_skipped:
  "\<not> list_ex (resolvable e cp) rs \<Longrightarrow> catalog_loop e cp rs acc = Inr acc"
  by (induction rs) (cases acc; auto simp: resolvable_def Let_def)+

text \<open>When every line is skipped, \<^verbatim>\<open>load_catalog\<close> raises the error of the empty catalog.\<close>

lemma load_catalog_all_skipped:
  assumes "read_csv e csv_path = Inr f" "fieldnames f \<noteq> []"
    "list_all (\<lambda>c. c \<in> set (fieldnames f)) required"
    "\<not> list_ex (resolvable e csv_path) (rows_csv f)"
  shows "load_catalog e csv_path = Inl CatalogEmpty"
  using assms by (simp add: load_catalog_def catalog_loop_all_skipped)

text \<open>A forced build that fails touches neither the state nor the cache.\<close>

lemma build_catalog_forced_failure:
  "load_catalog e csv_path = Inl err \<Longrightarrow>
     build_catalog e now csv_path True (st, d) = ((st, d), Inl err)"
  by (simp add: build_catalog_def)

text \<open>
  So does a build that is not forced, when the cache attempt fails before its first
  assignment.
\<close>

lemma build_catalog_clean_failure:
  assumes "load_catalog e csv_path = Inl err"
    and "npz_file d = Missing \<or> npz_file d = Corrupt \<or> idx_file d = Missing \<or>
         idx_file d = Corrupt \<or> (\<exists>z. npz_file d = Parsed z \<and> npz_img_embs z = None)"
  shows "build_catalog e now csv_path force (st, d) = ((st, d), Inl err)"
  using assms(1) try_load_cache_fails_early [OF assms(2), of st]
  by (simp add: build_catalog_def)

lemma build_catalog_success_nonempty:
  "build_catalog e now csv_path True (st, d) = ((st', d'), Inr r) \<Longrightarrow>
     catalog_rows st' \<noteq> [] \<and> status r = ''success''"
  by (auto simp: build_catalog_def Let_def split: sum.splits dest: load_catalog_nonempty)

lemma load_stale_catalog: "load_catalog demo_env ''catalog/stale.csv'' = Inl CatalogEmpty"
  by (simp add: load_catalog_def demo_env_def stale_csv_def csv_cols_def required_def py_str_def)

text \<open>
  Claim C9 fails on the code. A build that is not forced first tries the cache; with a
  whole archive and a manifest without \<^verbatim>\<open>rows\<close> that attempt replaces the two matrices and
  fails, and the build then ends with the error of the empty catalog. The state it leaves
  has the metadata of the index that was served and the matrices of the cache.
\<close>

theorem build_catalog_empty_after_partial_load:
  "build_catalog demo_env 0 ''catalog/stale.csv'' False (served_state, disk_no_rows) =
     ((served_state\<lparr>img_embs := Some (Array2 2 [[0, 1]]), txt_embs := Some (Array2 2 [[0, 1]])\<rparr>,
       disk_no_rows),
      Inl CatalogEmpty) \<and>
   served_state\<lparr>img_embs := Some (Array2 2 [[0, 1]]), txt_embs := Some (Array2 2 [[0, 1]])\<rparr> \<noteq>
     served_state"
  by (simp add: build_catalog_def load_stale_catalog try_load_cache_def disk_no_rows_def
      served_state_def unit_array_def unit_bank_def)

subsection \<open>The upload of \<^verbatim>\<open>/recommend\<close>\<close>

lemma upload_not_vis: "upload_path stamp filename \<noteq> vis_path e stamp filename"
proof (cases "path_parts (upload_name stamp filename)")
  case Nil
  have "''uploads'' \<noteq> vis_name e stamp filename"
  proof
    assume "''uploads'' = vis_name e stamp filename"
    then have "length ''uploads'' = length (vis_name e stamp filename)"
      by (rule arg_cong)
    then show False
      by (simp add: vis_name_def)
  qed
  with Nil show ?thesis
    by (simp add: upload_path_def vis_path_def)
next
  case (Cons p ps)
  then show ?thesis
    by (simp add: upload_path_def vis_path_def)
qed

lemma demo_upload_path: "upload_path 7 ''test.jpg'' = [''runs'', ''uploads'', ''7_test.jpg'']"
  by (simp add: upload_path_def upload_name_def path_parts_def str_nat.simps [of 7])

lemma slash_upload_path: "upload_path 7 ''a/b.jpg'' = [''runs'', ''uploads'', ''7_a'', ''b.jpg'']"
  by (simp add: upload_path_def upload_name_def path_parts_def str_nat.simps [of 7])

lemma demo_can_write: "can_write demo_env (upload_path 7 ''test.jpg'')"
  by (simp add: demo_upload_path demo_env_def)

lemma served_ready: "img_embs served_state \<noteq> None \<and> txt_embs served_state \<noteq> None"
  by (simp add: served_state_def)

lemma recommend_detection_fails:
  "snd (recommend demo_env served_state 7 ''test.jpg'' [] 3 (7 / 10) True no_files) =
     Inl DetectionFailure"
  using demo_can_write
  by (simp add: recommend_def served_state_def write_file_def) (simp add: demo_env_def)

lemma recommend_writes:
  "img_embs st \<noteq> None \<Longrightarrow> txt_embs st \<noteq> None \<Longrightarrow> can_write e (upload_path stamp filename) \<Longrightarrow>
   runs_files (fst (recommend e st stamp filename content topk alpha_img return_vis d))
     (upload_path stamp filename) = Some content"
  using upload_not_vis [of stamp filename e]
  by (auto simp: recommend_def write_file_def draw_and_save_def Let_def
      split: option.splits sum.splits prod.splits if_splits)

text \<open>
  Claim C5, as the code has it. The handler first checks that both matrices are set; when
  one is not, it answers that the catalog is not ready and writes nothing. Otherwise it
  opens \<^verbatim>\<open>uploads/<stamp>_<filename>\<close> for writing before it detects, encodes or ranks: when
  the operating system refuses the path the request ends there with nothing written, and
  when it accepts the path the uploaded bytes are in that file however the request ends.
\<close>

theorem recommend_upload_persisted:
  "(img_embs st = None \<or> txt_embs st = None \<longrightarrow>
      recommend e st stamp filename content topk alpha_img return_vis d =
        (d, Inl CatalogNotReady)) \<and>
   (img_embs st \<noteq> None \<and> txt_embs st \<noteq> None \<and> \<not> can_write e (upload_path stamp filename) \<longrightarrow>
      recommend e st stamp filename content topk alpha_img return_vis d = (d, Inl IOError)) \<and>
   (img_embs st \<noteq> None \<and> txt_embs st \<noteq> None \<and> can_write e (upload_path stamp filename) \<longrightarrow>
      runs_files (fst (recommend e st stamp filename content topk alpha_img return_vis d))
        (upload_path stamp filename) = Some content)"
  using upload_not_vis [of stamp filename e]
  by (auto simp: recommend_def write_file_def draw_and_save_def Let_def
      split: option.splits sum.splits prod.splits if_splits)

theorem recommend_upload_persisted_witness:
  "img_embs empty_state = None \<and>
   recommend demo_env empty_state 7 ''test.jpg'' ''JPEG'' 3 (7 / 10) True no_files =
     (no_files, Inl CatalogNotReady) \<and>
   img_embs served_state \<noteq> None \<and> txt_embs served_state \<noteq> None \<and>
   \<not> can_write demo_env (upload_path 7 ''a/b.jpg'') \<and>
   recommend demo_env served_state 7 ''a/b.jpg'' ''JPEG'' 3 (7 / 10) True no_files =
     (no_files, Inl IOError) \<and>
   can_write demo_env (upload_path 7 ''test.jpg'') \<and>
   snd (recommend demo_env served_state 7 ''test.jpg'' [] 3 (7 / 10) True no_files) =
     Inl DetectionFailure \<and>
   runs_files (fst (recommend demo_env served_state 7 ''test.jpg'' [] 3 (7 / 10) True no_files))
     (upload_path 7 ''test.jpg'') = Some []"
proof -
  have e: "img_embs empty_state = None"
    by (simp add: empty_state_def)
  have s: "\<not> can_write demo_env (upload_path 7 ''a/b.jpg'')"
    by (simp add: slash_upload_path demo_env_def)
  from recommend_upload_persisted [of empty_state demo_env 7 "''test.jpg''" "''JPEG''" 3 "7 / 10" True no_files]
    recommend_upload_persisted [of served_state demo_env 7 "''a/b.jpg''" "''JPEG''" 3 "7 / 10" True no_files]
    recommend_upload_persisted [of served_state demo_env 7 "''test.jpg''" "[]" 3 "7 / 10" True no_files]
  show ?thesis
    using e s served_ready demo_can_write recommend_detection_fails by simp
qed

text \<open>
  Claim C5 as stated fails twice. On the state of a process that has loaded nothing the
  request ends with the error of the catalog that is not ready, and no upload has been
  written. And the name is not unique to a request: a second request in the same
  millisecond with the same file name writes the same file, and the bytes of the first
  are gone.
\<close>

theorem recommend_not_ready_counterexample:
  "recommend demo_env empty_state 7 ''test.jpg'' ''JPEG'' 3 (7 / 10) True no_files =
     (no_files, Inl CatalogNotReady) \<and>
   runs_files no_files (upload_path 7 ''test.jpg'') = None \<and>
   runs_files (fst (recommend demo_env served_state 7 ''test.jpg'' ''first'' 3 (7 / 10) False
      no_files)) (upload_path 7 ''test.jpg'') = Some ''first'' \<and>
   runs_files (fst (recommend demo_env served_state 7 ''test.jpg'' ''second'' 3 (7 / 10) False
      (fst (recommend demo_env served_state 7 ''test.jpg'' ''first'' 3 (7 / 10) False no_files))))
     (upload_path 7 ''test.jpg'') = Some ''second''"
proof -
  have "runs_files (fst (recommend demo_env served_state 7 ''test.jpg'' c 3 (7 / 10) False d))
     (upload_path 7 ''test.jpg'') = Some c" for c d
    using recommend_writes [of served_state demo_env 7 "''test.jpg''" c 3 "7 / 10" False d]
      served_ready demo_can_write by simp
  then show ?thesis
    by (simp add: recommend_def empty_state_def no_files_def)
qed

subsection \<open>Ranking\<close>

lemma argsort_stable_ok: "is_argsort argsort_stable"
  by (simp add: is_argsort_def argsort_stable_def)

lemma is_argsort_mset: "is_argsort f \<Longrightarrow> mset (f xs) = mset [0..<length xs]"
  by (simp add: is_argsort_def)

lemma is_argsort_sorted: "is_argsort f \<Longrightarrow> sorted (map (\<lambda>i. xs ! i) (f xs))"
  by (simp add: is_argsort_def)

lemma is_argsort_set: "is_argsort f \<Longrightarrow> set (f xs) = {..<length xs}"
proof -
  assume "is_argsort f"
  then have "set_mset (mset (f xs)) = set_mset (mset [0..<length xs])"
    by (simp only: is_argsort_mset)
  then show ?thesis by (simp add: lessThan_atLeast0)
qed

lemma is_argsort_distinct: "is_argsort f \<Longrightarrow> distinct (f xs)"
proof -
  assume "is_argsort f"
  then have "mset (f xs) = mset [0..<length xs]"
    by (rule is_argsort_mset)
  from mset_eq_imp_distinct_iff [OF this] show ?thesis by simp
qed

lemma is_argsort_length: "is_argsort f \<Longrightarrow> length (f xs) = length xs"
proof -
  assume "is_argsort f"
  then have "mset (f xs) = mset [0..<length xs]"
    by (rule is_argsort_mset)
  from mset_eq_length [OF this] show ?thesis by simp
qed

lemma py_take_take: "py_take k xs = take (slice_len k (length xs)) xs"
  by (simp add: py_take_def slice_len_def min_def)

lemma length_py_take: "length (py_take k xs) = slice_len k (length xs)"
  by (auto simp: py_take_def slice_len_def)

lemma cos_sim_ok:
  "is_bank b N (length a) \<Longrightarrow> \<exists>s. cos_sim e a b = Inr s \<and> length s = N"
  by (auto simp: cos_sim_def is_bank_def split: ndarray.splits)

lemma fused_score_ok:
  assumes "index_ok rows ib tb emb N"
  shows "\<exists>score. fused_score e alpha emb ib tb = Inr score \<and> length score = N"
proof -
  from assms have "is_bank ib N (length emb)" and "is_bank tb N (length emb)"
    by (simp_all add: index_ok_def)
  from cos_sim_ok [OF this(1), of e] cos_sim_ok [OF this(2), of e] show ?thesis
    by (auto simp: fused_score_def fuse_scores_def)
qed

lemma recos_loop_ok:
  "\<forall>j \<in> set idx. j < length rows \<and> j < length score \<Longrightarrow>
     recos_loop rows score idx recos =
       Inr (recos @ map (\<lambda>j. mk_reco (rows ! j) (score ! j)) idx)"
  by (induction idx arbitrary: recos) auto

lemma top_indices_set:
  "is_argsort (argsort e) \<Longrightarrow> set (top_indices e score topk) \<subseteq> {..<length score}"
  using set_take_subset [of "slice_len topk (length (argsort e (map uminus score)))"
      "argsort e (map uminus score)"]
  by (simp add: top_indices_def py_take_take is_argsort_set)

lemma top_indices_length:
  "is_argsort (argsort e) \<Longrightarrow> length (top_indices e score topk) = slice_len topk (length score)"
  by (simp add: top_indices_def length_py_take is_argsort_length)

lemma rank_instance_ok:
  assumes idx: "index_ok rows ib tb emb N" and srt: "is_argsort (argsort e)"
  shows "\<exists>score. fused_score e alpha emb ib tb = Inr score \<and> length score = N \<and>
     rank_instance e rows ib tb alpha topk emb =
       Inr (map (\<lambda>j. mk_reco (rows ! j) (score ! j)) (top_indices e score topk))"
proof -
  from fused_score_ok [OF idx] obtain score where
    sc: "fused_score e alpha emb ib tb = Inr score" and len: "length score = N"
    by blast
  have rows: "length rows = N"
    using idx by (simp add: index_ok_def)
  have "\<forall>j \<in> set (top_indices e score topk). j < length rows \<and> j < length score"
    using top_indices_set [OF srt, of score topk] rows len by auto
  from recos_loop_ok [OF this, of "[]"] sc len show ?thesis
    by (simp add: rank_instance_def)
qed

lemma descending_of_sorted_neg:
  fixes score :: "real list"
  assumes "sorted (map (\<lambda>i. map uminus score ! i) p)" "set p \<subseteq> {..<length score}"
  shows "sorted_wrt (\<lambda>x y. x \<ge> y) (map (\<lambda>i. score ! i) p)"
proof -
  have "map (\<lambda>i. map uminus score ! i) p = map uminus (map (\<lambda>i. score ! i) p)"
    using assms(2) by (auto simp: subset_iff)
  with assms(1) show ?thesis
    by (simp add: sorted_wrt_map)
qed

lemma argsort_descending:
  fixes score :: "real list"
  assumes "is_argsort f"
  shows "sorted_wrt (\<lambda>x y. x \<ge> y) (map (\<lambda>i. score ! i) (f (map uminus score)))"
proof (rule descending_of_sorted_neg)
  show "sorted (map (\<lambda>i. map uminus score ! i) (f (map uminus score)))"
    using assms by (rule is_argsort_sorted)
  show "set (f (map uminus score)) \<subseteq> {..<length score}"
    using is_argsort_set [OF assms, of "map uminus score"] by simp
qed

lemma sorted_wrt_take_drop:
  assumes "sorted_wrt P xs" "x \<in> set (take m xs)" "y \<in> set (drop m xs)"
  shows "P x y"
proof -
  have "sorted_wrt P (take m xs @ drop m xs)"
    using assms(1) by simp
  then show ?thesis
    using assms(2,3) unfolding sorted_wrt_append by blast
qed

lemma top_indices_best:
  assumes srt: "is_argsort (argsort e)"
  shows "best_selection score (top_indices e score topk)"
proof -
  let ?p = "argsort e (map uminus score)"
  let ?m = "slice_len topk (length ?p)"
  have ti: "top_indices e score topk = take ?m ?p"
    by (simp add: top_indices_def py_take_take)
  have setp: "set ?p = {..<length score}"
    using is_argsort_set [OF srt, of "map uminus score"] by simp
  have desc: "sorted_wrt (\<lambda>i j. score ! i \<ge> score ! j) ?p"
    using argsort_descending [OF srt, of score] by (simp add: sorted_wrt_map)
  have d: "distinct (take ?m ?p)"
    using is_argsort_distinct [OF srt] by simp
  have s: "set (take ?m ?p) \<subseteq> {..<length score}"
    using set_take_subset [of ?m ?p] setp by simp
  have o: "sorted_wrt (\<lambda>x y. x \<ge> y) (map (\<lambda>i. score ! i) (take ?m ?p))"
    using sorted_wrt_take [OF desc, of ?m] by (simp add: sorted_wrt_map)
  have b: "score ! j \<le> score ! i"
    if "j < length score" "j \<notin> set (take ?m ?p)" "i \<in> set (take ?m ?p)" for i j
  proof -
    from that(1) setp have "j \<in> set (take ?m ?p @ drop ?m ?p)"
      by simp
    with that(2) have "j \<in> set (drop ?m ?p)"
      by (simp only: set_append) blast
    from sorted_wrt_take_drop [OF desc that(3) this] show ?thesis .
  qed
  show ?thesis
    unfolding best_selection_def ti using d s o b by blast
qed

text \<open>The network on four keys does what \<^verbatim>\<open>np.argsort\<close> promises.\<close>

lemma length_four:
  assumes "length xs = 4"
  obtains a b c d where "xs = [a, b, c, d]"
proof -
  from assms have "length xs = Suc (Suc (Suc (Suc 0)))" by simp
  then show ?thesis
    by (auto simp: length_Suc_conv intro: that)
qed

lemma network4_sorts:
  fixes a b c d :: real
  shows "mset (argsort_network [a, b, c, d]) = mset [0..<length [a, b, c, d]] \<and>
         sorted (map (\<lambda>i. [a, b, c, d] ! i) (argsort_network [a, b, c, d]))"
  by (simp add: argsort_network_def network4_def coex_def upt_rec) 

lemma argsort_network_ok: "is_argsort argsort_network"
proof -
  have "mset (argsort_network xs) = mset [0..<length xs] \<and>
        sorted (map (\<lambda>i. xs ! i) (argsort_network xs))" for xs
  proof (cases "length xs = 4")
    case True
    then obtain a b c d where xs: "xs = [a, b, c, d]"
      by (rule length_four)
    show ?thesis
      unfolding xs by (rule network4_sorts)
  next
    case False
    then show ?thesis
      using argsort_stable_ok by (simp add: argsort_network_def is_argsort_def)
  qed
  then show ?thesis
    by (simp add: is_argsort_def)
qed

lemma demo_index_ok: "index_ok [row_a, row_b] unit_array unit_array [1, 0] 2"
  by (simp add: index_ok_def is_bank_def unit_array_def unit_bank_def)

lemma demo_argsort: "is_argsort (argsort demo_env)"
  by (simp add: demo_env_def argsort_stable_ok)

lemma demo_fused: "fused_score demo_env (7 / 10) [1, 0] unit_array unit_array = Inr [1, 0]"
  by (simp add: fused_score_def cos_sim_def fuse_scores_def demo_env_def unit_array_def
      unit_bank_def)

lemma demo_rank:
  "rank_instance demo_env [row_a, row_b] unit_array unit_array (7 / 10) 5 [1, 0] =
     Inr [mk_reco row_a 1, mk_reco row_b 0]"
  by (simp add: rank_instance_def demo_fused top_indices_def py_take_def)
     (simp add: demo_env_def argsort_stable_def upt_rec)

lemma demo_rank_zero:
  "rank_instance demo_env [row_a, row_b] unit_array unit_array (7 / 10) 0 [1, 0] = Inr []"
  by (simp add: rank_instance_def demo_fused top_indices_def py_take_def)

lemma tie_index_ok: "index_ok [row_a, row_b] tie_array tie_array [1, 0] 2"
  by (simp add: index_ok_def is_bank_def tie_array_def)

lemma tie_fused: "fused_score demo_env (7 / 10) [1, 0] tie_array tie_array = Inr [1, 1]"
  by (simp add: fused_score_def cos_sim_def fuse_scores_def demo_env_def tie_array_def)

lemma tie_top: "top_indices demo_env [1, 1] 1 = [0]"
  by (simp add: top_indices_def py_take_def demo_env_def argsort_stable_def upt_rec)

lemma four_index_ok: "index_ok four_rows four_array four_array [1, 0] 4"
  by (simp add: index_ok_def is_bank_def four_array_def four_rows_def)

lemma four_fused: "fused_score simd_env (7 / 10) [1, 0] four_array four_array = Inr [0, 0, 1, 1]"
  by (simp add: fused_score_def cos_sim_def fuse_scores_def simd_env_def demo_env_def
      four_array_def)

lemma four_argsort: "argsort_network [0, 0, - 1, - 1] = [3, 2, 1, 0]"
  by (simp add: argsort_network_def network4_def coex_def upt_rec)

lemma four_top: "top_indices simd_env [0, 0, 1, 1] 2 = [3, 2]"
  by (simp add: top_indices_def py_take_def simd_env_def four_argsort)

lemma simd_argsort: "is_argsort (argsort simd_env)"
  by (simp add: simd_env_def argsort_network_ok)

text \<open>
  Claim C6, as the code has it. On an index whose banks fit the query, and for an argsort
  that does what \<^verbatim>\<open>np.argsort\<close> promises, the ranking step returns the rows of a best
  selection by fused score: distinct rows, in descending order of score, none of the rows
  left out scoring higher than a row taken. The order of rows with equal scores is the
  one argsort gives them.
\<close>

theorem rank_instance_best_selection:
  assumes "index_ok rows ib tb emb N" and "is_argsort (argsort e)"
  shows "\<exists>score. fused_score e alpha emb ib tb = Inr score \<and> length score = N \<and>
     rank_instance e rows ib tb alpha topk emb =
       Inr (map (\<lambda>j. mk_reco (rows ! j) (score ! j)) (top_indices e score topk)) \<and>
     best_selection score (top_indices e score topk)"
  using rank_instance_ok [OF assms, of alpha topk] top_indices_best [OF assms(2)] by blast

theorem rank_instance_best_selection_witness:
  "index_ok [row_a, row_b] tie_array tie_array [1, 0] 2 \<and> is_argsort (argsort demo_env) \<and>
   rank_instance demo_env [row_a, row_b] tie_array tie_array (7 / 10) 1 [1, 0] =
     Inr [mk_reco row_a 1] \<and>
   best_selection [1, 1] (top_indices demo_env [1, 1] 1)"
proof -
  from rank_instance_best_selection [OF tie_index_ok demo_argsort, of "7 / 10" 1]
  have "rank_instance demo_env [row_a, row_b] tie_array tie_array (7 / 10) 1 [1, 0] =
       Inr (map (\<lambda>j. mk_reco ([row_a, row_b] ! j) ([1, 1] ! j)) (top_indices demo_env [1, 1] 1)) \<and>
     best_selection [1, 1] (top_indices demo_env [1, 1] 1)"
    by (simp add: tie_fused)
  then show ?thesis
    using tie_index_ok demo_argsort by (simp add: tie_top)
qed

text \<open>
  Claim C6 as stated fails where NumPy sorts with its vector networks. On an index of four
  rows of which the last two have the embedding of the query, rows 2 and 3 have the same
  fused score and \<^verbatim>\<open>np.argsort(-score)\<close> is \<^verbatim>\<open>[3, 2, 1, 0]\<close>: row 3 is ranked before row 2.
\<close>

theorem rank_instance_ties_counterexample:
  "index_ok four_rows four_array four_array [1, 0] 4 \<and> is_argsort (argsort simd_env) \<and>
   fused_score simd_env (7 / 10) [1, 0] four_array four_array = Inr [0, 0, 1, 1] \<and>
   rank_instance simd_env four_rows four_array four_array (7 / 10) 2 [1, 0] =
     Inr [mk_reco row_d 1, mk_reco row_c 1] \<and>
   \<not> ties_in_row_order [0, 0, 1, 1] (top_indices simd_env [0, 0, 1, 1] 2)"
proof -
  have "\<not> ties_in_row_order [0, 0, 1, 1] [3, 2]"
    unfolding ties_in_row_order_def
    by (rule notI, drule spec [of _ 0], drule spec [of _ 1]) simp
  moreover have "rank_instance simd_env four_rows four_array four_array (7 / 10) 2 [1, 0] =
     Inr [mk_reco row_d 1, mk_reco row_c 1]"
    by (simp add: rank_instance_def four_fused four_top four_rows_def)
  ultimately show ?thesis
    by (simp add: four_index_ok simd_argsort four_fused four_top)
qed

text \<open>
  Claim C7, as the code has it. For \<open>topk \<ge> 0\<close> the ranked list of an index of \<open>N\<close> rows has
  \<open>min topk N\<close> entries, in descending order of fused score: all \<open>N\<close> rows for \<open>topk \<ge> N\<close>,
  none for \<open>topk = 0\<close>.
\<close>

theorem rank_instance_length:
  assumes k: "0 \<le> topk" and idx: "index_ok rows ib tb emb N" and srt: "is_argsort (argsort e)"
  shows "\<exists>recos. rank_instance e rows ib tb alpha topk emb = Inr recos \<and>
     length recos = min (nat topk) N \<and>
     sorted_wrt (\<lambda>x y. x \<ge> y) (map r_score recos) \<and>
     (int N \<le> topk \<longrightarrow> length recos = N) \<and>
     (topk = 0 \<longrightarrow> recos = [])"
proof -
  from rank_instance_ok [OF idx srt, of alpha topk] obtain score where
    len: "length score = N" and
    run: "rank_instance e rows ib tb alpha topk emb =
       Inr (map (\<lambda>j. mk_reco (rows ! j) (score ! j)) (top_indices e score topk))"
    by blast
  let ?recos = "map (\<lambda>j. mk_reco (rows ! j) (score ! j)) (top_indices e score topk)"
  have l: "length ?recos = min (nat topk) N"
    using top_indices_length [OF srt, of score topk] k len by (simp add: slice_len_def)
  have eq: "map r_score ?recos = map (\<lambda>i. score ! i) (top_indices e score topk)"
    by (simp add: mk_reco_def)
  have "sorted_wrt (\<lambda>x y. x \<ge> y) (map (\<lambda>i. score ! i) (top_indices e score topk))"
    using top_indices_best [OF srt, of score topk] by (simp add: best_selection_def)
  then have o: "sorted_wrt (\<lambda>x y. x \<ge> y) (map r_score ?recos)"
    unfolding eq .
  have "int N \<le> topk \<longrightarrow> length ?recos = N"
    using l k by auto
  moreover have "topk = 0 \<longrightarrow> ?recos = []"
    using l by auto
  ultimately show ?thesis
    using run l o by blast
qed

theorem rank_instance_length_witness:
  "(0::int) \<le> 5 \<and> index_ok [row_a, row_b] unit_array unit_array [1, 0] 2 \<and>
   is_argsort (argsort demo_env) \<and>
   rank_instance demo_env [row_a, row_b] unit_array unit_array (7 / 10) 5 [1, 0] =
     Inr [mk_reco row_a 1, mk_reco row_b 0] \<and>
   length [mk_reco row_a 1, mk_reco row_b 0] = min (nat 5) 2 \<and>
   rank_instance demo_env [row_a, row_b] unit_array unit_array (7 / 10) 0 [1, 0] = Inr []"
proof -
  have k: "(0::int) \<le> 5" and z: "(0::int) \<le> 0" by simp_all
  from rank_instance_length [OF k demo_index_ok demo_argsort, of "7 / 10"]
    rank_instance_length [OF z demo_index_ok demo_argsort, of "7 / 10"]
  show ?thesis
    using demo_index_ok demo_argsort demo_rank demo_rank_zero by simp
qed

text \<open>
  Claim C7 as stated fails for a negative \<open>topk\<close>, which the slice does not clamp to zero:
  \<^verbatim>\<open>[:-1]\<close> keeps all entries but the last, here one of two.
\<close>

theorem rank_instance_negative_topk:
  "index_ok [row_a, row_b] unit_array unit_array [1, 0] 2 \<and> is_argsort (argsort demo_env) \<and>
   rank_instance demo_env [row_a, row_b] unit_array unit_array (7 / 10) (- 1) [1, 0] =
     Inr [mk_reco row_a 1]"
  by (simp add: demo_index_ok demo_argsort rank_instance_def demo_fused top_indices_def py_take_def)
     (simp add: demo_env_def argsort_stable_def upt_rec)

end
